theory Spec2Isabelle
  imports Main "HOL-Library.AList" "HOL-Library.Char_ord" "HOL-Library.List_Lexorder"
begin

section \<open>Data model\<close>

text \<open>
  References are value-typed identifiers (\<^verbatim>\<open>MetricReference(element_name=...)\<close>,
  \<^verbatim>\<open>MeasureReference(element_name=...)\<close>): equal exactly when their names are equal.
\<close>

datatype metric_reference = MetricReference string

datatype measure_reference = MeasureReference string

datatype metric_type = SIMPLE | RATIO | CUMULATIVE | DERIVED

datatype time_granularity = DAY | WEEK | MONTH | QUARTER | YEAR

text \<open>A where filter is its SQL template; a time window is a count of grain units.\<close>

datatype where_filter = WhereFilter string

datatype metric_time_window = MetricTimeWindow nat time_granularity

text \<open>
  \<^verbatim>\<open>MetricInputMeasure\<close>, \<^verbatim>\<open>MetricInput\<close>, \<^verbatim>\<open>MetricTypeParams\<close> and \<^verbatim>\<open>Metric\<close> are
  declared outside \<^verbatim>\<open>metric_semantics.py\<close>; the records hold the attributes that
  \<^verbatim>\<open>MetricSemantics\<close> reads. Optional attributes are \<open>option\<close>s; an object or an enum
  member is truthy in Python exactly when it is not \<^verbatim>\<open>None\<close>.
\<close>

record metric_input_measure =
  input_measure_name :: string
  input_measure_filter :: "where_filter option"
  input_measure_alias :: "string option"

record metric_input =
  input_metric_name :: string
  input_metric_filter :: "where_filter option"
  input_metric_alias :: "string option"
  offset_window :: "metric_time_window option"
  offset_to_grain :: "time_granularity option"

record metric_type_params =
  metrics :: "metric_input list option"

record metric =
  metric_name :: string
  metric_type :: metric_type
  type_params :: metric_type_params
  metric_filter :: "where_filter option"
  input_measures :: "metric_input_measure list"

text \<open>\<^verbatim>\<open>MetricInputMeasure.measure_reference\<close> and \<^verbatim>\<open>MetricInput.as_reference\<close>.\<close>

definition measure_reference :: "metric_input_measure \<Rightarrow> measure_reference" where
  "measure_reference im = MeasureReference (input_measure_name im)"

definition as_reference :: "metric_input \<Rightarrow> metric_reference" where
  "as_reference i = MetricReference (input_metric_name i)"

text \<open>
  Modelled from the spec: the properties \<^verbatim>\<open>Metric.measure_references\<close> and
  \<^verbatim>\<open>Metric.input_metrics\<close> are not in the source files at hand. The first is the list of
  references of the metric's input measures, the second the inputs of a derived metric
  (the optional list \<^verbatim>\<open>type_params.metrics\<close>, empty when absent).
\<close>

definition measure_references :: "metric \<Rightarrow> measure_reference list" where
  "measure_references m = map measure_reference (input_measures m)"

definition input_metrics :: "metric \<Rightarrow> metric_input list" where
  "input_metrics m = (case metrics (type_params m) of None \<Rightarrow> [] | Some xs \<Rightarrow> xs)"

text \<open>
  The part of \<^verbatim>\<open>SemanticModelSemantics\<close> that \<^verbatim>\<open>MetricSemantics\<close> consults: the
  registered measure references and the dictionary of non-additive dimension specs.
\<close>

datatype non_additive_dimension_spec = NonAdditiveDimensionSpec string

record semantic_model_semantics =
  sms_measure_references :: "measure_reference list"
  non_additive_dimension_specs_by_measure ::
    "(measure_reference \<times> non_additive_dimension_spec) list"

text \<open>
  The state of a \<^verbatim>\<open>MetricSemantics\<close> object. \<^verbatim>\<open>self._metrics\<close> is a Python
  dictionary: an association list in insertion order, read with \<open>map_of\<close> and written
  with \<open>AList.update\<close> (a new key goes to the end, an old key keeps its place).
\<close>

record metric_semantics =
  self_metrics :: "(metric_reference \<times> metric) list"
  self_semantic_model_semantics :: semantic_model_semantics

text \<open>Every exception the modelled code raises, with the offending reference.\<close>

datatype error =
    MetricNotFoundError metric_reference
  | DuplicateMetricError string
  | NonExistentMeasureError string measure_reference
  | AssertionError

section \<open>Metric registry: \<^verbatim>\<open>MetricSemantics\<close>\<close>

definition get_metric :: "metric_semantics \<Rightarrow> metric_reference \<Rightarrow> error + metric" where
  "get_metric self metric_reference =
     (case map_of (self_metrics self) metric_reference of
        None \<Rightarrow> Inl (MetricNotFoundError metric_reference)
      | Some m \<Rightarrow> Inr m)"

text \<open>The loop of \<^verbatim>\<open>get_metrics\<close>, with \<open>res\<close> the list built so far.\<close>

fun get_metrics_loop ::
  "metric_semantics \<Rightarrow> metric_reference list \<Rightarrow> metric list \<Rightarrow> error + metric list" where
  "get_metrics_loop self [] res = Inr res"
| "get_metrics_loop self (metric_reference # rest) res =
     (case map_of (self_metrics self) metric_reference of
        None \<Rightarrow> Inl (MetricNotFoundError metric_reference)
      | Some m \<Rightarrow> get_metrics_loop self rest (res @ [m]))"

definition get_metrics ::
  "metric_semantics \<Rightarrow> metric_reference list \<Rightarrow> error + metric list" where
  "get_metrics self metric_references = get_metrics_loop self metric_references []"

definition metric_references :: "metric_semantics \<Rightarrow> metric_reference list" where
  "metric_references self = map fst (self_metrics self)"

text \<open>
  \<^verbatim>\<open>add_metric\<close> mutates the object and may raise: the model returns the outcome
  together with the state the object is left in. The measure loop raises at the first
  reference that is not registered.
\<close>

definition add_metric ::
  "metric_semantics \<Rightarrow> metric \<Rightarrow> (error + unit) \<times> metric_semantics" where
  "add_metric self m =
     (let metric_reference = MetricReference (metric_name m) in
      if metric_reference \<in> set (map fst (self_metrics self))
      then (Inl (DuplicateMetricError (metric_name m)), self)
      else
        (case find (\<lambda>r. r \<notin> set (sms_measure_references (self_semantic_model_semantics self)))
                   (measure_references m) of
           Some r \<Rightarrow> (Inl (NonExistentMeasureError (metric_name m) r), self)
         | None \<Rightarrow>
             (Inr (),
              self\<lparr>self_metrics := AList.update metric_reference m (self_metrics self)\<rparr>)))"

text \<open>
  The constructor: starts from the empty dictionary and adds the metrics of the
  user-configured model one by one; an exception of \<^verbatim>\<open>add_metric\<close> aborts it.
\<close>

fun add_metrics :: "metric_semantics \<Rightarrow> metric list \<Rightarrow> error + metric_semantics" where
  "add_metrics self [] = Inr self"
| "add_metrics self (m # ms) =
     (case add_metric self m of
        (Inl e, _) \<Rightarrow> Inl e
      | (Inr _, self') \<Rightarrow> add_metrics self' ms)"

definition init ::
  "metric list \<Rightarrow> semantic_model_semantics \<Rightarrow> error + metric_semantics" where
  "init user_configured_model_metrics sms =
     add_metrics \<lparr>self_metrics = [], self_semantic_model_semantics = sms\<rparr>
       user_configured_model_metrics"

section \<open>Metric expansion\<close>

text \<open>
  Modelled from the spec: \<^verbatim>\<open>WhereFilterSpec\<close> and \<^verbatim>\<open>ColumnAssociationResolver\<close> are not
  in the source files at hand. The resolver is an opaque value \<open>'r\<close> handed through to
  \<^verbatim>\<open>WhereFilterSpec.create_from_where_filter\<close>; \<^verbatim>\<open>combine\<close> is the AND-combination of
  two filter specs, receiver first. Both are kept as constructors, so that the
  conjuncts of a constraint and their order can be read off.
\<close>

datatype 'r where_filter_spec =
    FromWhereFilter where_filter 'r
  | AndCombined "'r where_filter_spec" "'r where_filter_spec"

definition create_from_where_filter :: "where_filter \<Rightarrow> 'r \<Rightarrow> 'r where_filter_spec" where
  "create_from_where_filter flt column_association_resolver =
     FromWhereFilter flt column_association_resolver"

definition combine :: "'r where_filter_spec \<Rightarrow> 'r where_filter_spec \<Rightarrow> 'r where_filter_spec" where
  "combine this other = AndCombined this other"

text \<open>The where filters a constraint is the conjunction of, left to right.\<close>

fun conjuncts :: "'r where_filter_spec \<Rightarrow> where_filter list" where
  "conjuncts (FromWhereFilter flt r) = [flt]"
| "conjuncts (AndCombined a b) = conjuncts a @ conjuncts b"

record measure_spec =
  measure_element_name :: string
  non_additive_dimension_spec :: "non_additive_dimension_spec option"

record 'r metric_input_measure_spec =
  measure_spec :: measure_spec
  measure_constraint :: "'r where_filter_spec option"
  measure_alias :: "string option"

record 'r metric_spec =
  spec_element_name :: string
  spec_constraint :: "'r where_filter_spec option"
  spec_alias :: "string option"
  spec_offset_window :: "metric_time_window option"
  spec_offset_to_grain :: "time_granularity option"

text \<open>The body of the loop of \<^verbatim>\<open>measures_for_metric\<close>: the spec of one input measure.\<close>

definition input_measure_spec ::
  "metric_semantics \<Rightarrow> 'r \<Rightarrow> metric_input_measure \<Rightarrow> 'r metric_input_measure_spec" where
  "input_measure_spec self column_association_resolver input_measure =
     \<lparr>measure_spec =
        \<lparr>measure_element_name = input_measure_name input_measure,
         non_additive_dimension_spec =
           map_of (non_additive_dimension_specs_by_measure (self_semantic_model_semantics self))
                  (measure_reference input_measure)\<rparr>,
      measure_constraint =
        (case input_measure_filter input_measure of
           Some flt \<Rightarrow> Some (create_from_where_filter flt column_association_resolver)
         | None \<Rightarrow> None),
      measure_alias = input_measure_alias input_measure\<rparr>"

definition measures_for_metric ::
  "metric_semantics \<Rightarrow> metric_reference \<Rightarrow> 'r \<Rightarrow> error + 'r metric_input_measure_spec list" where
  "measures_for_metric self metric_reference column_association_resolver =
     (case get_metric self metric_reference of
        Inl e \<Rightarrow> Inl e
      | Inr m \<Rightarrow>
          Inr (map (input_measure_spec self column_association_resolver) (input_measures m)))"

text \<open>
  \<^verbatim>\<open>contains_cumulative_or_time_offset_metric\<close>: the outer loop over the references,
  the inner loop over \<^verbatim>\<open>metric.type_params.metrics or []\<close>. Only the metric itself and
  its own inputs are looked at.
\<close>

definition has_offset :: "metric_input \<Rightarrow> bool" where
  "has_offset input_metric \<longleftrightarrow>
     offset_window input_metric \<noteq> None \<or> offset_to_grain input_metric \<noteq> None"

text \<open>
  The test that one turn of the outer loop applies to the metric it has looked up;
  the function below spells it out as the source does.
\<close>

definition cumulative_or_time_offset :: "metric \<Rightarrow> bool" where
  "cumulative_or_time_offset m \<longleftrightarrow>
     metric_type m = CUMULATIVE \<or>
     (metric_type m = DERIVED \<and> list_ex has_offset (input_metrics m))"

fun contains_cumulative_or_time_offset_metric ::
  "metric_semantics \<Rightarrow> metric_reference list \<Rightarrow> error + bool" where
  "contains_cumulative_or_time_offset_metric self [] = Inr False"
| "contains_cumulative_or_time_offset_metric self (metric_reference # rest) =
     (case get_metric self metric_reference of
        Inl e \<Rightarrow> Inl e
      | Inr m \<Rightarrow>
          if metric_type m = CUMULATIVE then Inr True
          else if metric_type m = DERIVED \<and>
                  list_ex has_offset
                    (case metrics (type_params m) of None \<Rightarrow> [] | Some xs \<Rightarrow> xs)
          then Inr True
          else contains_cumulative_or_time_offset_metric self rest)"

text \<open>
  \<^verbatim>\<open>metric_input_specs_for_metric\<close>. \<open>combined_filter\<close> starts as the filter of the input
  and is then combined with the filter of the metric the input refers to. The filter
  of the metric being expanded is not read.
\<close>

definition input_metric_spec :: "'r \<Rightarrow> metric_input \<Rightarrow> metric \<Rightarrow> 'r metric_spec" where
  "input_metric_spec column_association_resolver input_metric original_metric_obj =
     (let combined_filter =
            (case input_metric_filter input_metric of
               Some flt \<Rightarrow> Some (create_from_where_filter flt column_association_resolver)
             | None \<Rightarrow> None);
          combined_filter =
            (case metric_filter original_metric_obj of
               Some flt \<Rightarrow>
                 (let original_metric_filter =
                        create_from_where_filter flt column_association_resolver
                  in Some (case combined_filter of
                             Some c \<Rightarrow> combine c original_metric_filter
                           | None \<Rightarrow> original_metric_filter))
             | None \<Rightarrow> combined_filter)
      in \<lparr>spec_element_name = input_metric_name input_metric,
          spec_constraint = combined_filter,
          spec_alias = input_metric_alias input_metric,
          spec_offset_window = offset_window input_metric,
          spec_offset_to_grain = offset_to_grain input_metric\<rparr>)"

fun input_metric_specs_loop ::
  "metric_semantics \<Rightarrow> 'r \<Rightarrow> metric_input list \<Rightarrow> 'r metric_spec list \<Rightarrow>
   error + 'r metric_spec list" where
  "input_metric_specs_loop self resolver [] input_metric_specs = Inr input_metric_specs"
| "input_metric_specs_loop self resolver (input_metric # rest) input_metric_specs =
     (case get_metric self (as_reference input_metric) of
        Inl e \<Rightarrow> Inl e
      | Inr original_metric_obj \<Rightarrow>
          input_metric_specs_loop self resolver rest
            (input_metric_specs @ [input_metric_spec resolver input_metric original_metric_obj]))"

definition metric_input_specs_for_metric ::
  "metric_semantics \<Rightarrow> metric_reference \<Rightarrow> 'r \<Rightarrow> error + 'r metric_spec list" where
  "metric_input_specs_for_metric self metric_reference column_association_resolver =
     (case get_metric self metric_reference of
        Inl e \<Rightarrow> Inl e
      | Inr m \<Rightarrow>
          input_metric_specs_loop self column_association_resolver (input_metrics m) [])"

section \<open>Linkable specs of a set of metrics\<close>

datatype linkable_element_properties =
  LOCAL | JOINED | MULTI_HOP_JOINED | DERIVED_TIME_GRANULARITY | METRIC_TIME | ENTITY














section \<open>Data sources: validity dimensions\<close>

record dimension_validity_params =
  is_start :: bool
  is_end :: bool

record dimension =
  dimension_name :: string
  validity_params :: "dimension_validity_params option"
  is_partition :: bool

record data_source =
  data_source_name :: string
  dimensions :: "dimension list"

text \<open>
  \<^verbatim>\<open>dim.validity_params and dim.validity_params.is_start\<close> is truthy when the params
  are present and the flag is set.
\<close>

definition is_validity_start :: "dimension \<Rightarrow> bool" where
  "is_validity_start dim =
     (case validity_params dim of None \<Rightarrow> False | Some vp \<Rightarrow> is_start vp)"

definition is_validity_end :: "dimension \<Rightarrow> bool" where
  "is_validity_end dim =
     (case validity_params dim of None \<Rightarrow> False | Some vp \<Rightarrow> is_end vp)"

definition validity_start_dimension :: "data_source \<Rightarrow> error + dimension option" where
  "validity_start_dimension self =
     (let validity_start_dims = filter is_validity_start (dimensions self) in
      case validity_start_dims of
        [] \<Rightarrow> Inr None
      | d # ds \<Rightarrow>
          if length validity_start_dims = 1 then Inr (Some d) else Inl AssertionError)"

definition validity_end_dimension :: "data_source \<Rightarrow> error + dimension option" where
  "validity_end_dimension self =
     (let validity_end_dims = filter is_validity_end (dimensions self) in
      case validity_end_dims of
        [] \<Rightarrow> Inr None
      | d # ds \<Rightarrow>
          if length validity_end_dims = 1 then Inr (Some d) else Inl AssertionError)"

section \<open>The expansion as the specification words it\<close>

text \<open>
  The specification speaks of the expanded metrics of a query: the requested metrics
  together with the metrics their derived inputs refer to, and so on. \<open>expanded_metrics n\<close>
  follows the inputs through \<open>n\<close> levels; a manifest has no cyclic metric, so a depth
  of the number of metrics reaches all of them.
\<close>

fun expanded_metrics :: "nat \<Rightarrow> metric_semantics \<Rightarrow> metric_reference list \<Rightarrow> metric list" where
  "expanded_metrics n self [] = []"
| "expanded_metrics n self (r # rest) =
     (case map_of (self_metrics self) r of
        None \<Rightarrow> []
      | Some m \<Rightarrow>
          m # (case n of
                 0 \<Rightarrow> []
               | Suc k \<Rightarrow> expanded_metrics k self (map as_reference (input_metrics m))))
     @ expanded_metrics n self rest"

definition spec_contains_cumulative_or_time_offset_metric ::
  "metric_semantics \<Rightarrow> metric_reference list \<Rightarrow> bool" where
  "spec_contains_cumulative_or_time_offset_metric self refs \<longleftrightarrow>
     list_ex cumulative_or_time_offset
       (expanded_metrics (length (self_metrics self)) self refs)"

text \<open>
  The constraint the specification gives an input of a derived metric: the filters of
  the derived metric, of the input and of the metric the input refers to, in this order,
  those that are absent left out.
\<close>

definition spec_constraint_filters :: "metric \<Rightarrow> metric_input \<Rightarrow> metric \<Rightarrow> where_filter list" where
  "spec_constraint_filters derived input_metric original =
     (case metric_filter derived of None \<Rightarrow> [] | Some f \<Rightarrow> [f]) @
     (case input_metric_filter input_metric of None \<Rightarrow> [] | Some f \<Rightarrow> [f]) @
     (case metric_filter original of None \<Rightarrow> [] | Some f \<Rightarrow> [f])"

definition constraint_filters :: "'r where_filter_spec option \<Rightarrow> where_filter list" where
  "constraint_filters c = (case c of None \<Rightarrow> [] | Some s \<Rightarrow> conjuncts s)"

section \<open>A small manifest\<close>

text \<open>
  A manifest in the style of the repository's test model: bookings, a filtered variant,
  a cumulative revenue metric and derived metrics over them.
\<close>

definition example_sms :: semantic_model_semantics where
  "example_sms =
     \<lparr>sms_measure_references =
        [MeasureReference ''bookings'', MeasureReference ''txn_revenue'',
         MeasureReference ''views''],
      non_additive_dimension_specs_by_measure = []\<rparr>"

definition bookings_measure :: metric_input_measure where
  "bookings_measure =
     \<lparr>input_measure_name = ''bookings'', input_measure_filter = None,
      input_measure_alias = None\<rparr>"

definition txn_revenue_measure :: metric_input_measure where
  "txn_revenue_measure =
     \<lparr>input_measure_name = ''txn_revenue'', input_measure_filter = None,
      input_measure_alias = None\<rparr>"

definition bookings :: metric where
  "bookings =
     \<lparr>metric_name = ''bookings'', metric_type = SIMPLE,
      type_params = \<lparr>metrics = None\<rparr>, metric_filter = None,
      input_measures = [bookings_measure]\<rparr>"

definition instant_bookings :: metric where
  "instant_bookings =
     \<lparr>metric_name = ''instant_bookings'', metric_type = SIMPLE,
      type_params = \<lparr>metrics = None\<rparr>,
      metric_filter = Some (WhereFilter ''booking__is_instant''),
      input_measures = [bookings_measure]\<rparr>"

definition trailing_2_months_revenue :: metric where
  "trailing_2_months_revenue =
     \<lparr>metric_name = ''trailing_2_months_revenue'', metric_type = CUMULATIVE,
      type_params = \<lparr>metrics = None\<rparr>, metric_filter = None,
      input_measures = [txn_revenue_measure]\<rparr>"

definition bookings_5_day_lag :: metric where
  "bookings_5_day_lag =
     \<lparr>metric_name = ''bookings_5_day_lag'', metric_type = DERIVED,
      type_params =
        \<lparr>metrics =
           Some [\<lparr>input_metric_name = ''bookings'', input_metric_filter = None,
                  input_metric_alias = Some ''bookings_5_days_ago'',
                  offset_window = Some (MetricTimeWindow 5 DAY),
                  offset_to_grain = None\<rparr>]\<rparr>,
      metric_filter = None,
      input_measures = [bookings_measure]\<rparr>"

text \<open>A derived metric over the cumulative one, with no offset on its input.\<close>

definition revenue_per_booking :: metric where
  "revenue_per_booking =
     \<lparr>metric_name = ''revenue_per_booking'', metric_type = DERIVED,
      type_params =
        \<lparr>metrics =
           Some [\<lparr>input_metric_name = ''trailing_2_months_revenue'',
                  input_metric_filter = None, input_metric_alias = None,
                  offset_window = None, offset_to_grain = None\<rparr>,
                 \<lparr>input_metric_name = ''bookings'',
                  input_metric_filter = None, input_metric_alias = None,
                  offset_window = None, offset_to_grain = None\<rparr>]\<rparr>,
      metric_filter = None,
      input_measures = [txn_revenue_measure, bookings_measure]\<rparr>"

text \<open>A derived metric with a filter of its own, over a filtered input.\<close>

definition lux_instant_bookings :: metric where
  "lux_instant_bookings =
     \<lparr>metric_name = ''lux_instant_bookings'', metric_type = DERIVED,
      type_params =
        \<lparr>metrics =
           Some [\<lparr>input_metric_name = ''instant_bookings'',
                  input_metric_filter = Some (WhereFilter ''booking__is_large''),
                  input_metric_alias = Some ''large_instant'',
                  offset_window = None, offset_to_grain = None\<rparr>]\<rparr>,
      metric_filter = Some (WhereFilter ''listing__is_lux_latest''),
      input_measures = [bookings_measure]\<rparr>"

definition example_metrics :: "metric list" where
  "example_metrics =
     [bookings, instant_bookings, trailing_2_months_revenue, bookings_5_day_lag,
      revenue_per_booking, lux_instant_bookings]"

definition example_semantics :: metric_semantics where
  "example_semantics =
     \<lparr>self_metrics = map (\<lambda>m. (MetricReference (metric_name m), m)) example_metrics,
      self_semantic_model_semantics = example_sms\<rparr>"

text \<open>A metric over a measure that no semantic model has.\<close>

definition orphan_metric :: metric where
  "orphan_metric =
     \<lparr>metric_name = ''orphan'', metric_type = SIMPLE,
      type_params = \<lparr>metrics = None\<rparr>, metric_filter = None,
      input_measures =
        [\<lparr>input_measure_name = ''no_such_measure'', input_measure_filter = None,
          input_measure_alias = None\<rparr>]\<rparr>"



text \<open>A slowly changing dimension table with one validity window.\<close>

definition example_data_source :: data_source where
  "example_data_source =
     \<lparr>data_source_name = ''listings_scd'',
      dimensions =
        [\<lparr>dimension_name = ''capacity'', validity_params = None, is_partition = False\<rparr>,
         \<lparr>dimension_name = ''window_start'',
          validity_params = Some \<lparr>is_start = True, is_end = False\<rparr>, is_partition = False\<rparr>,
         \<lparr>dimension_name = ''window_end'',
          validity_params = Some \<lparr>is_start = False, is_end = True\<rparr>, is_partition = False\<rparr>]\<rparr>"

text \<open>A data source with no validity window.\<close>

definition bookings_data_source :: data_source where
  "bookings_data_source =
     \<lparr>data_source_name = ''bookings_source'',
      dimensions =
        [\<lparr>dimension_name = ''is_instant'', validity_params = None, is_partition = False\<rparr>,
         \<lparr>dimension_name = ''ds'', validity_params = None, is_partition = True\<rparr>]\<rparr>"

section \<open>Properties of the registry\<close>

lemma get_metrics_loop_all_registered:
  "\<forall>r \<in> set refs. map_of (self_metrics self) r \<noteq> None \<Longrightarrow>
   get_metrics_loop self refs res = Inr (res @ map (\<lambda>r. the (map_of (self_metrics self) r)) refs)"
  by (induction refs arbitrary: res) auto

lemma registered_iff:
  "r \<in> set (metric_references self) \<longleftrightarrow> (\<exists>m. map_of (self_metrics self) r = Some m)"
  by (metis map_of_eq_None_iff metric_references_def not_None_eq set_map)

lemma get_metric_registered:
  "map_of (self_metrics self) r = Some m \<Longrightarrow> get_metric self r = Inr m"
  by (simp add: get_metric_def)

lemma get_metric_unregistered:
  "r \<notin> set (metric_references self) \<Longrightarrow> get_metric self r = Inl (MetricNotFoundError r)"
  by (simp add: get_metric_def registered_iff)

lemma get_metrics_loop_first_unregistered:
  "set pre \<subseteq> set (metric_references self) \<Longrightarrow> r \<notin> set (metric_references self) \<Longrightarrow>
   get_metrics_loop self (pre @ r # post) res = Inl (MetricNotFoundError r)"
  by (induction pre arbitrary: res) (auto simp: registered_iff)

lemma get_metrics_all_registered:
  assumes "set refs \<subseteq> set (metric_references self)"
  shows "get_metrics self refs = Inr (map (\<lambda>r. the (map_of (self_metrics self) r)) refs)"
proof -
  have "\<forall>r \<in> set refs. map_of (self_metrics self) r \<noteq> None"
    using assms by (auto simp: registered_iff)
  then show ?thesis
    by (simp add: get_metrics_def get_metrics_loop_all_registered)
qed

lemma first_unregistered_split:
  "\<not> set refs \<subseteq> A \<Longrightarrow> \<exists>pre r post. refs = pre @ r # post \<and> set pre \<subseteq> A \<and> r \<notin> A"
proof (induction refs)
  case Nil
  then show ?case by simp
next
  case (Cons a refs)
  show ?case
  proof (cases "a \<in> A")
    case True
    with Cons.prems have "\<not> set refs \<subseteq> A" by auto
    from Cons.IH[OF this] obtain pre r post
      where "refs = pre @ r # post" "set pre \<subseteq> A" "r \<notin> A" by blast
    with True have "a # refs = (a # pre) @ r # post \<and> set (a # pre) \<subseteq> A \<and> r \<notin> A" by simp
    then show ?thesis by blast
  next
    case False
    then have "a # refs = [] @ a # refs \<and> set [] \<subseteq> A \<and> a \<notin> A" by simp
    then show ?thesis by blast
  qed
qed

text \<open>
  Claim C4. \<^verbatim>\<open>get_metric\<close> returns the metric registered under a reference when the
  reference is in the registry and raises \<^verbatim>\<open>MetricNotFoundError\<close> otherwise.
  \<^verbatim>\<open>get_metrics\<close> over a sequence of registered references returns the corresponding
  metrics, in the same order and of the same length; otherwise it raises
  \<^verbatim>\<open>MetricNotFoundError\<close> for the first reference that is not registered.
\<close>

theorem get_metric_get_metrics_lookup:
  "(r \<in> set (metric_references self) \<longrightarrow>
      (\<exists>m. map_of (self_metrics self) r = Some m \<and> get_metric self r = Inr m))
   \<and> (r \<notin> set (metric_references self) \<longrightarrow>
        get_metric self r = Inl (MetricNotFoundError r))
   \<and> (set refs \<subseteq> set (metric_references self) \<longrightarrow>
        (\<exists>ms. get_metrics self refs = Inr ms \<and> length ms = length refs \<and>
              (\<forall>i < length refs. get_metric self (refs ! i) = Inr (ms ! i))))
   \<and> (\<not> set refs \<subseteq> set (metric_references self) \<longrightarrow>
        (\<exists>pre u post. refs = pre @ u # post \<and> set pre \<subseteq> set (metric_references self) \<and>
            u \<notin> set (metric_references self) \<and>
            get_metrics self refs = Inl (MetricNotFoundError u)))"
proof (intro conjI impI)
  assume "r \<in> set (metric_references self)"
  then show "\<exists>m. map_of (self_metrics self) r = Some m \<and> get_metric self r = Inr m"
    by (auto simp: registered_iff get_metric_registered)
next
  assume "r \<notin> set (metric_references self)"
  then show "get_metric self r = Inl (MetricNotFoundError r)"
    by (rule get_metric_unregistered)
next
  assume all: "set refs \<subseteq> set (metric_references self)"
  let ?ms = "map (\<lambda>r. the (map_of (self_metrics self) r)) refs"
  have "get_metrics self refs = Inr ?ms"
    using all by (rule get_metrics_all_registered)
  moreover have "length ?ms = length refs" by simp
  moreover have "\<forall>i < length refs. get_metric self (refs ! i) = Inr (?ms ! i)"
  proof (intro allI impI)
    fix i assume "i < length refs"
    then have "refs ! i \<in> set (metric_references self)" using all by auto
    then obtain m where "map_of (self_metrics self) (refs ! i) = Some m"
      by (auto simp: registered_iff)
    then show "get_metric self (refs ! i) = Inr (?ms ! i)"
      using \<open>i < length refs\<close> by (simp add: get_metric_def)
  qed
  ultimately show "\<exists>ms. get_metrics self refs = Inr ms \<and> length ms = length refs \<and>
      (\<forall>i < length refs. get_metric self (refs ! i) = Inr (ms ! i))"
    by blast
next
  assume "\<not> set refs \<subseteq> set (metric_references self)"
  from first_unregistered_split[OF this] obtain pre u post
    where split: "refs = pre @ u # post" "set pre \<subseteq> set (metric_references self)"
      "u \<notin> set (metric_references self)" by blast
  then have "get_metrics self refs = Inl (MetricNotFoundError u)"
    by (simp add: get_metrics_def get_metrics_loop_first_unregistered)
  with split show "\<exists>pre u post. refs = pre @ u # post \<and> set pre \<subseteq> set (metric_references self) \<and>
            u \<notin> set (metric_references self) \<and>
            get_metrics self refs = Inl (MetricNotFoundError u)"
    by blast
qed

lemmas example_defs =
  example_metrics_def example_semantics_def bookings_def instant_bookings_def
  trailing_2_months_revenue_def bookings_5_day_lag_def revenue_per_booking_def
  lux_instant_bookings_def example_sms_def bookings_measure_def txn_revenue_measure_def

lemma example_metric_references:
  "metric_references example_semantics =
     [MetricReference ''bookings'', MetricReference ''instant_bookings'',
      MetricReference ''trailing_2_months_revenue'', MetricReference ''bookings_5_day_lag'',
      MetricReference ''revenue_per_booking'', MetricReference ''lux_instant_bookings'']"
  by (simp add: metric_references_def example_defs)

text \<open>On the small manifest: two lookups, a sequence that succeeds and one that fails.\<close>

theorem get_metric_get_metrics_lookup_witness:
  "MetricReference ''bookings'' \<in> set (metric_references example_semantics)
   \<and> get_metric example_semantics (MetricReference ''bookings'') = Inr bookings
   \<and> MetricReference ''listings'' \<notin> set (metric_references example_semantics)
   \<and> get_metric example_semantics (MetricReference ''listings'') =
       Inl (MetricNotFoundError (MetricReference ''listings''))
   \<and> set [MetricReference ''instant_bookings'', MetricReference ''bookings'']
       \<subseteq> set (metric_references example_semantics)
   \<and> get_metrics example_semantics [MetricReference ''instant_bookings'', MetricReference ''bookings'']
       = Inr [instant_bookings, bookings]
   \<and> \<not> set [MetricReference ''bookings'', MetricReference ''listings'', MetricReference ''views'']
       \<subseteq> set (metric_references example_semantics)
   \<and> get_metrics example_semantics
        [MetricReference ''bookings'', MetricReference ''listings'', MetricReference ''views'']
       = Inl (MetricNotFoundError (MetricReference ''listings''))"
proof -
  let ?b = "MetricReference ''bookings''" and ?l = "MetricReference ''listings''"
  let ?ok = "[MetricReference ''instant_bookings'', ?b]"
  let ?bad = "[?b, ?l, MetricReference ''views'']"
  have in_b: "?b \<in> set (metric_references example_semantics)"
    and out_l: "?l \<notin> set (metric_references example_semantics)"
    and ok: "set ?ok \<subseteq> set (metric_references example_semantics)"
    and bad: "\<not> set ?bad \<subseteq> set (metric_references example_semantics)"
    by (simp_all add: example_metric_references)
  have look_b: "map_of (self_metrics example_semantics) ?b = Some bookings"
    and look_i: "map_of (self_metrics example_semantics) (MetricReference ''instant_bookings'')
                  = Some instant_bookings"
    by (simp_all add: example_defs)
  note thm_ok = get_metric_get_metrics_lookup[of ?b example_semantics ?ok]
  note thm_bad = get_metric_get_metrics_lookup[of ?l example_semantics ?bad]
  from thm_ok in_b look_b have g1: "get_metric example_semantics ?b = Inr bookings"
    by auto
  from thm_bad out_l have g2: "get_metric example_semantics ?l = Inl (MetricNotFoundError ?l)"
    by blast
  from thm_ok ok obtain ms where ms: "get_metrics example_semantics ?ok = Inr ms"
    "length ms = length ?ok"
    "\<forall>i < length ?ok. get_metric example_semantics (?ok ! i) = Inr (ms ! i)"
    by blast
  have "get_metric example_semantics (?ok ! 0) = Inr (ms ! 0)"
    using ms(3) by (elim allE[of _ 0]) simp
  moreover have "get_metric example_semantics (?ok ! 1) = Inr (ms ! 1)"
    using ms(3) by (elim allE[of _ 1]) simp
  ultimately
  have "ms ! 0 = instant_bookings" "ms ! 1 = bookings"
    using look_b look_i by (simp_all add: get_metric_def)
  with ms(2) have "ms = [instant_bookings, bookings]"
    by (cases ms; cases "tl ms") auto
  with ms(1) have g3: "get_metrics example_semantics ?ok = Inr [instant_bookings, bookings]"
    by simp
  from thm_bad bad obtain pre u post where split: "?bad = pre @ u # post"
    "set pre \<subseteq> set (metric_references example_semantics)"
    "u \<notin> set (metric_references example_semantics)"
    "get_metrics example_semantics ?bad = Inl (MetricNotFoundError u)"
    by blast
  have "u = ?l"
  proof (cases pre)
    case Nil
    with split(1,3) in_b show ?thesis by simp
  next
    case (Cons a pre')
    with split(1) have "a = ?b" "[?l, MetricReference ''views''] = pre' @ u # post" by simp_all
    then show ?thesis
      using split(2) Cons out_l by (cases pre') auto
  qed
  with split(4) have g4: "get_metrics example_semantics ?bad = Inl (MetricNotFoundError ?l)"
    by simp
  from in_b g1 out_l g2 ok g3 bad g4 show ?thesis by blast
qed

lemma update_fresh:
  "k \<notin> set (map fst al) \<Longrightarrow> AList.update k v al = al @ [(k, v)]"
  by (induction al) auto

lemma find_unregistered_None:
  "find (\<lambda>r. r \<notin> A) xs = None \<longleftrightarrow> set xs \<subseteq> A"
  by (auto simp: find_None_iff)

lemma add_metric_duplicate:
  "MetricReference (metric_name m) \<in> set (metric_references self) \<Longrightarrow>
   add_metric self m = (Inl (DuplicateMetricError (metric_name m)), self)"
  by (simp add: add_metric_def metric_references_def)

lemma add_metric_missing_measure:
  assumes "MetricReference (metric_name m) \<notin> set (metric_references self)"
    and "\<not> set (measure_references m)
           \<subseteq> set (sms_measure_references (self_semantic_model_semantics self))"
  shows "\<exists>r. r \<in> set (measure_references m) \<and>
             r \<notin> set (sms_measure_references (self_semantic_model_semantics self)) \<and>
             add_metric self m = (Inl (NonExistentMeasureError (metric_name m) r), self)"
proof -
  let ?A = "set (sms_measure_references (self_semantic_model_semantics self))"
  from assms(2) have "find (\<lambda>r. r \<notin> ?A) (measure_references m) \<noteq> None"
    by (simp add: find_unregistered_None)
  then obtain r where r: "find (\<lambda>r. r \<notin> ?A) (measure_references m) = Some r" by blast
  then have "r \<in> set (measure_references m)" "r \<notin> ?A"
    by (auto simp: find_Some_iff)
  moreover from assms(1) r
  have "add_metric self m = (Inl (NonExistentMeasureError (metric_name m) r), self)"
    by (simp add: add_metric_def metric_references_def)
  ultimately show ?thesis by blast
qed

lemma add_metric_registers:
  assumes "MetricReference (metric_name m) \<notin> set (metric_references self)"
    and "set (measure_references m)
           \<subseteq> set (sms_measure_references (self_semantic_model_semantics self))"
  shows "add_metric self m =
           (Inr (), self\<lparr>self_metrics :=
                           self_metrics self @ [(MetricReference (metric_name m), m)]\<rparr>)"
proof -
  let ?A = "set (sms_measure_references (self_semantic_model_semantics self))"
  from assms(2) have "find (\<lambda>r. r \<notin> ?A) (measure_references m) = None"
    by (simp add: find_unregistered_None)
  moreover from assms(1)
  have "AList.update (MetricReference (metric_name m)) m (self_metrics self)
          = self_metrics self @ [(MetricReference (metric_name m), m)]"
    by (simp add: update_fresh metric_references_def)
  ultimately show ?thesis
    using assms(1) by (simp add: add_metric_def metric_references_def)
qed

lemma add_metric_Inr:
  assumes "add_metric self m = (Inr u, self')"
  shows "MetricReference (metric_name m) \<notin> set (metric_references self) \<and>
         set (measure_references m)
           \<subseteq> set (sms_measure_references (self_semantic_model_semantics self)) \<and>
         self' = self\<lparr>self_metrics :=
                        self_metrics self @ [(MetricReference (metric_name m), m)]\<rparr>"
proof -
  have fresh: "MetricReference (metric_name m) \<notin> set (metric_references self)"
    using assms add_metric_duplicate[of m self] by auto
  have sub: "set (measure_references m)
           \<subseteq> set (sms_measure_references (self_semantic_model_semantics self))"
    using assms add_metric_missing_measure[OF fresh] by auto
  from add_metric_registers[OF fresh sub] assms fresh sub show ?thesis by simp
qed

lemma add_metrics_Inr:
  "add_metrics self ms = Inr built \<Longrightarrow>
   self_metrics built = self_metrics self @ map (\<lambda>m. (MetricReference (metric_name m), m)) ms \<and>
   self_semantic_model_semantics built = self_semantic_model_semantics self \<and>
   (distinct (metric_references self) \<longrightarrow> distinct (metric_references built)) \<and>
   (\<forall>m \<in> set ms. set (measure_references m)
        \<subseteq> set (sms_measure_references (self_semantic_model_semantics self)))"
proof (induction ms arbitrary: self)
  case Nil
  then show ?case by simp
next
  case (Cons m ms)
  from Cons.prems obtain u self' where step: "add_metric self m = (Inr u, self')"
    and rest: "add_metrics self' ms = Inr built"
    by (auto split: prod.splits sum.splits)
  note a = add_metric_Inr[OF step]
  note ih = Cons.IH[OF rest]
  from a have s': "self_metrics self' = self_metrics self @ [(MetricReference (metric_name m), m)]"
    and sms': "self_semantic_model_semantics self' = self_semantic_model_semantics self"
    by simp_all
  from a have fresh: "MetricReference (metric_name m) \<notin> set (metric_references self)"
    and sub: "set (measure_references m)
           \<subseteq> set (sms_measure_references (self_semantic_model_semantics self))"
    by simp_all
  have refs': "metric_references self' = metric_references self @ [MetricReference (metric_name m)]"
    by (simp add: metric_references_def s')
  have c1: "self_metrics built =
      self_metrics self @ map (\<lambda>m. (MetricReference (metric_name m), m)) (m # ms)"
    using ih by (simp add: s')
  have c2: "self_semantic_model_semantics built = self_semantic_model_semantics self"
    using ih by (simp add: sms')
  have c3: "distinct (metric_references self) \<longrightarrow> distinct (metric_references built)"
  proof
    assume "distinct (metric_references self)"
    with fresh have "distinct (metric_references self')" by (simp add: refs')
    with ih show "distinct (metric_references built)" by blast
  qed
  have c4: "\<forall>m \<in> set (m # ms). set (measure_references m)
        \<subseteq> set (sms_measure_references (self_semantic_model_semantics self))"
    using ih sub by (simp add: sms')
  from c1 c2 c3 c4 show ?case by blast
qed

text \<open>
  Claim C5. \<^verbatim>\<open>add_metric\<close> raises \<^verbatim>\<open>DuplicateMetricError\<close> when a metric of the same
  name is registered; failing that, it raises \<^verbatim>\<open>NonExistentMeasureError\<close> for a measure
  reference of the metric that the semantic model does not have; otherwise it registers
  the metric at the end of the registry. Hence a build that succeeds has registered
  exactly the metrics of the manifest, no reference twice, and every input measure of
  every registered metric exists.
\<close>

theorem add_metric_checks_and_build_invariant:
  "(MetricReference (metric_name m) \<in> set (metric_references self) \<longrightarrow>
      fst (add_metric self m) = Inl (DuplicateMetricError (metric_name m)))
   \<and> (MetricReference (metric_name m) \<notin> set (metric_references self) \<and>
       \<not> set (measure_references m)
           \<subseteq> set (sms_measure_references (self_semantic_model_semantics self)) \<longrightarrow>
        (\<exists>r. r \<in> set (measure_references m) \<and>
             r \<notin> set (sms_measure_references (self_semantic_model_semantics self)) \<and>
             fst (add_metric self m) = Inl (NonExistentMeasureError (metric_name m) r)))
   \<and> (MetricReference (metric_name m) \<notin> set (metric_references self) \<and>
       set (measure_references m)
           \<subseteq> set (sms_measure_references (self_semantic_model_semantics self)) \<longrightarrow>
        fst (add_metric self m) = Inr () \<and>
        metric_references (snd (add_metric self m)) =
          metric_references self @ [MetricReference (metric_name m)] \<and>
        get_metric (snd (add_metric self m)) (MetricReference (metric_name m)) = Inr m)
   \<and> (init ms sms = Inr built \<longrightarrow>
        distinct (metric_references built) \<and>
        self_metrics built = map (\<lambda>m. (MetricReference (metric_name m), m)) ms \<and>
        (\<forall>(r, m') \<in> set (self_metrics built).
            set (measure_references m') \<subseteq> set (sms_measure_references sms)))"
proof (intro conjI impI)
  assume "MetricReference (metric_name m) \<in> set (metric_references self)"
  then show "fst (add_metric self m) = Inl (DuplicateMetricError (metric_name m))"
    by (simp add: add_metric_duplicate)
next
  assume "MetricReference (metric_name m) \<notin> set (metric_references self) \<and>
       \<not> set (measure_references m)
           \<subseteq> set (sms_measure_references (self_semantic_model_semantics self))"
  then show "\<exists>r. r \<in> set (measure_references m) \<and>
             r \<notin> set (sms_measure_references (self_semantic_model_semantics self)) \<and>
             fst (add_metric self m) = Inl (NonExistentMeasureError (metric_name m) r)"
    using add_metric_missing_measure[of m self] by fastforce
next
  assume ok: "MetricReference (metric_name m) \<notin> set (metric_references self) \<and>
       set (measure_references m)
           \<subseteq> set (sms_measure_references (self_semantic_model_semantics self))"
  then have eq: "add_metric self m =
           (Inr (), self\<lparr>self_metrics :=
                           self_metrics self @ [(MetricReference (metric_name m), m)]\<rparr>)"
    by (simp add: add_metric_registers)
  show "fst (add_metric self m) = Inr ()" by (simp add: eq)
  show "metric_references (snd (add_metric self m)) =
          metric_references self @ [MetricReference (metric_name m)]"
    by (simp add: eq metric_references_def)
  from ok have "map_of (self_metrics self) (MetricReference (metric_name m)) = None"
    by (simp add: registered_iff)
  then show "get_metric (snd (add_metric self m)) (MetricReference (metric_name m)) = Inr m"
    by (simp add: eq get_metric_def map_add_def)
next
  assume b: "init ms sms = Inr built"
  let ?s0 = "\<lparr>self_metrics = [], self_semantic_model_semantics = sms\<rparr>"
  from b have "add_metrics ?s0 ms = Inr built" by (simp add: init_def)
  note inv = add_metrics_Inr[OF this]
  have "distinct (metric_references ?s0)"
    by (simp add: metric_references_def)
  with inv show "distinct (metric_references built)"
    by blast
  from inv show "self_metrics built = map (\<lambda>m. (MetricReference (metric_name m), m)) ms"
    by simp
  from inv show "\<forall>(r, m') \<in> set (self_metrics built).
            set (measure_references m') \<subseteq> set (sms_measure_references sms)"
    by auto
qed

text \<open>
  Claim C10. \<^verbatim>\<open>add_metric\<close> is atomic on error: when it raises (a
  \<^verbatim>\<open>DuplicateMetricError\<close> or a \<^verbatim>\<open>NonExistentMeasureError\<close>, it has no other), the
  object is left as it was, so \<^verbatim>\<open>metric_references\<close>, \<^verbatim>\<open>get_metric\<close> and
  \<^verbatim>\<open>get_metrics\<close> return what they returned before the call.
\<close>

theorem add_metric_atomic_on_error:
  assumes "fst (add_metric self m) = Inl e"
  shows "(e = DuplicateMetricError (metric_name m) \<or>
          (\<exists>r. e = NonExistentMeasureError (metric_name m) r))
         \<and> snd (add_metric self m) = self
         \<and> metric_references (snd (add_metric self m)) = metric_references self
         \<and> (\<forall>r. get_metric (snd (add_metric self m)) r = get_metric self r)
         \<and> (\<forall>refs. get_metrics (snd (add_metric self m)) refs = get_metrics self refs)"
proof -
  have "(e = DuplicateMetricError (metric_name m) \<or>
          (\<exists>r. e = NonExistentMeasureError (metric_name m) r))
        \<and> snd (add_metric self m) = self"
    using assms by (auto simp: add_metric_def Let_def split: if_splits option.splits)
  then show ?thesis by simp
qed


lemma example_init: "init example_metrics example_sms = Inr example_semantics"
  by (simp add: init_def add_metric_def measure_references_def measure_reference_def example_defs)

text \<open>
  On the small manifest: a duplicate, a missing measure, a first registration, and the
  build of the whole manifest.
\<close>

theorem add_metric_checks_and_build_invariant_witness:
  "MetricReference (metric_name bookings) \<in> set (metric_references example_semantics)
   \<and> fst (add_metric example_semantics bookings) = Inl (DuplicateMetricError ''bookings'')
   \<and> MetricReference (metric_name orphan_metric) \<notin> set (metric_references example_semantics)
   \<and> \<not> set (measure_references orphan_metric)
          \<subseteq> set (sms_measure_references (self_semantic_model_semantics example_semantics))
   \<and> fst (add_metric example_semantics orphan_metric) =
        Inl (NonExistentMeasureError ''orphan'' (MeasureReference ''no_such_measure''))
   \<and> fst (add_metric \<lparr>self_metrics = [], self_semantic_model_semantics = example_sms\<rparr> bookings)
        = Inr ()
   \<and> metric_references
        (snd (add_metric \<lparr>self_metrics = [], self_semantic_model_semantics = example_sms\<rparr> bookings))
        = [MetricReference ''bookings'']
   \<and> init example_metrics example_sms = Inr example_semantics
   \<and> distinct (metric_references example_semantics)
   \<and> set (measure_references revenue_per_booking) \<subseteq> set (sms_measure_references example_sms)"
proof -
  let ?empty = "\<lparr>self_metrics = [], self_semantic_model_semantics = example_sms\<rparr>"
  have dup: "MetricReference (metric_name bookings) \<in> set (metric_references example_semantics)"
    by (simp add: example_metric_references bookings_def)
  have fresh: "MetricReference (metric_name orphan_metric)
                 \<notin> set (metric_references example_semantics)"
    by (simp add: example_metric_references orphan_metric_def)
  have orphan_refs: "measure_references orphan_metric = [MeasureReference ''no_such_measure'']"
    by (simp add: measure_references_def measure_reference_def orphan_metric_def)
  have missing: "\<not> set (measure_references orphan_metric)
          \<subseteq> set (sms_measure_references (self_semantic_model_semantics example_semantics))"
    by (simp add: orphan_refs example_semantics_def example_sms_def)
  have new: "MetricReference (metric_name bookings) \<notin> set (metric_references ?empty)"
    "set (measure_references bookings)
       \<subseteq> set (sms_measure_references (self_semantic_model_semantics ?empty))"
    by (simp_all add: metric_references_def measure_references_def measure_reference_def
        example_defs)
  note t1 = add_metric_checks_and_build_invariant
      [where m = bookings and self = example_semantics and ms = example_metrics
         and sms = example_sms and built = example_semantics]
  note t2 = add_metric_checks_and_build_invariant
      [where m = orphan_metric and self = example_semantics and ms = example_metrics
         and sms = example_sms and built = example_semantics]
  note t3 = add_metric_checks_and_build_invariant
      [where m = bookings and self = ?empty and ms = example_metrics
         and sms = example_sms and built = example_semantics]
  from t1 dup have g1: "fst (add_metric example_semantics bookings)
      = Inl (DuplicateMetricError ''bookings'')"
    by (simp add: bookings_def)
  from t2 fresh missing obtain r where "r \<in> set (measure_references orphan_metric)"
    "fst (add_metric example_semantics orphan_metric)
       = Inl (NonExistentMeasureError (metric_name orphan_metric) r)"
    by blast
  then have g2: "fst (add_metric example_semantics orphan_metric) =
        Inl (NonExistentMeasureError ''orphan'' (MeasureReference ''no_such_measure''))"
    by (simp add: orphan_refs) (simp add: orphan_metric_def)
  from t3 new have g3: "fst (add_metric ?empty bookings) = Inr ()"
    and g4: "metric_references (snd (add_metric ?empty bookings))
               = metric_references ?empty @ [MetricReference (metric_name bookings)]"
    by blast+
  from g4 have g4': "metric_references (snd (add_metric ?empty bookings))
      = [MetricReference ''bookings'']"
    by (simp add: metric_references_def bookings_def)
  from t1 example_init have g5: "distinct (metric_references example_semantics)"
    and all: "\<forall>(r, m') \<in> set (self_metrics example_semantics).
            set (measure_references m') \<subseteq> set (sms_measure_references example_sms)"
    by blast+
  have "(MetricReference ''revenue_per_booking'', revenue_per_booking)
          \<in> set (self_metrics example_semantics)"
    by (simp add: example_semantics_def example_metrics_def revenue_per_booking_def)
  with all have g6: "set (measure_references revenue_per_booking)
      \<subseteq> set (sms_measure_references example_sms)"
    by blast
  from dup g1 fresh missing g2 g3 g4' example_init g5 g6 show ?thesis by blast
qed

text \<open>
  Both errors on the small manifest leave it unchanged.
\<close>

theorem add_metric_atomic_on_error_witness:
  "fst (add_metric example_semantics orphan_metric) =
     Inl (NonExistentMeasureError ''orphan'' (MeasureReference ''no_such_measure''))
   \<and> snd (add_metric example_semantics orphan_metric) = example_semantics
   \<and> metric_references (snd (add_metric example_semantics orphan_metric)) =
       metric_references example_semantics
   \<and> get_metric (snd (add_metric example_semantics orphan_metric)) (MetricReference ''bookings'')
       = get_metric example_semantics (MetricReference ''bookings'')
   \<and> fst (add_metric example_semantics bookings) = Inl (DuplicateMetricError ''bookings'')
   \<and> snd (add_metric example_semantics bookings) = example_semantics"
proof -
  have e1: "fst (add_metric example_semantics orphan_metric) =
     Inl (NonExistentMeasureError ''orphan'' (MeasureReference ''no_such_measure''))"
    by (simp add: add_metric_def measure_references_def measure_reference_def
        orphan_metric_def example_defs)
  have e2: "fst (add_metric example_semantics bookings) = Inl (DuplicateMetricError ''bookings'')"
    by (simp add: add_metric_def example_defs)
  from add_metric_atomic_on_error[OF e1] add_metric_atomic_on_error[OF e2] e1 e2
  show ?thesis by simp
qed

section \<open>Validity dimensions of a data source\<close>

lemma single_search:
  assumes "length (filter P xs) \<le> 1" and "filter P xs = d # ds"
  shows "ds = []" and "x \<in> set xs \<Longrightarrow> P x \<Longrightarrow> x = d"
proof -
  from assms show ds: "ds = []" by simp
  assume "x \<in> set xs" "P x"
  then have "x \<in> set (filter P xs)" by simp
  then show "x = d" by (simp add: assms(2) ds)
qed

lemma validity_start_dimension_unique:
  assumes "length (filter is_validity_start (dimensions self)) \<le> 1"
  shows "validity_start_dimension self \<noteq> Inl AssertionError"
    and "\<forall>d \<in> set (dimensions self). \<not> is_validity_start d \<Longrightarrow>
         validity_start_dimension self = Inr None"
    and "d \<in> set (dimensions self) \<Longrightarrow> is_validity_start d \<Longrightarrow>
         validity_start_dimension self = Inr (Some d)"
proof -
  let ?ds = "filter is_validity_start (dimensions self)"
  show "validity_start_dimension self \<noteq> Inl AssertionError"
    using assms by (cases ?ds) (simp_all add: validity_start_dimension_def)
  show "validity_start_dimension self = Inr None"
    if "\<forall>d \<in> set (dimensions self). \<not> is_validity_start d"
  proof -
    from that have "?ds = []" by (simp add: filter_empty_conv)
    then show ?thesis by (simp add: validity_start_dimension_def)
  qed
  show "validity_start_dimension self = Inr (Some d)"
    if "d \<in> set (dimensions self)" "is_validity_start d"
  proof (cases ?ds)
    case Nil
    with that show ?thesis by (simp add: filter_empty_conv)
  next
    case (Cons d' ds)
    from single_search[OF assms Cons] that have "ds = []" "d = d'" by blast+
    with Cons show ?thesis by (simp add: validity_start_dimension_def)
  qed
qed

lemma validity_end_dimension_unique:
  assumes "length (filter is_validity_end (dimensions self)) \<le> 1"
  shows "validity_end_dimension self \<noteq> Inl AssertionError"
    and "\<forall>d \<in> set (dimensions self). \<not> is_validity_end d \<Longrightarrow>
         validity_end_dimension self = Inr None"
    and "d \<in> set (dimensions self) \<Longrightarrow> is_validity_end d \<Longrightarrow>
         validity_end_dimension self = Inr (Some d)"
proof -
  let ?ds = "filter is_validity_end (dimensions self)"
  show "validity_end_dimension self \<noteq> Inl AssertionError"
    using assms by (cases ?ds) (simp_all add: validity_end_dimension_def)
  show "validity_end_dimension self = Inr None"
    if "\<forall>d \<in> set (dimensions self). \<not> is_validity_end d"
  proof -
    from that have "?ds = []" by (simp add: filter_empty_conv)
    then show ?thesis by (simp add: validity_end_dimension_def)
  qed
  show "validity_end_dimension self = Inr (Some d)"
    if "d \<in> set (dimensions self)" "is_validity_end d"
  proof (cases ?ds)
    case Nil
    with that show ?thesis by (simp add: filter_empty_conv)
  next
    case (Cons d' ds)
    from single_search[OF assms Cons] that have "ds = []" "d = d'" by blast+
    with Cons show ?thesis by (simp add: validity_end_dimension_def)
  qed
qed

text \<open>
  Claim C7. On a data source where at most one dimension is marked as validity start
  (respectively end), \<^verbatim>\<open>validity_start_dimension\<close> (respectively
  \<^verbatim>\<open>validity_end_dimension\<close>) returns \<^verbatim>\<open>None\<close> when no dimension is so marked, returns
  the one marked dimension otherwise, and its assertion does not fail.
\<close>

theorem validity_dimensions_under_invariant:
  "(length (filter is_validity_start (dimensions self)) \<le> 1 \<longrightarrow>
      validity_start_dimension self \<noteq> Inl AssertionError
      \<and> ((\<forall>d \<in> set (dimensions self). \<not> is_validity_start d) \<longrightarrow>
            validity_start_dimension self = Inr None)
      \<and> (\<forall>d \<in> set (dimensions self). is_validity_start d \<longrightarrow>
            validity_start_dimension self = Inr (Some d)))
   \<and> (length (filter is_validity_end (dimensions self)) \<le> 1 \<longrightarrow>
      validity_end_dimension self \<noteq> Inl AssertionError
      \<and> ((\<forall>d \<in> set (dimensions self). \<not> is_validity_end d) \<longrightarrow>
            validity_end_dimension self = Inr None)
      \<and> (\<forall>d \<in> set (dimensions self). is_validity_end d \<longrightarrow>
            validity_end_dimension self = Inr (Some d)))"
  using validity_start_dimension_unique[of self] validity_end_dimension_unique[of self]
  by blast

text \<open>
  A table with one validity window, and one with none.
\<close>

theorem validity_dimensions_under_invariant_witness:
  "length (filter is_validity_start (dimensions example_data_source)) \<le> 1
   \<and> length (filter is_validity_end (dimensions example_data_source)) \<le> 1
   \<and> validity_start_dimension example_data_source =
       Inr (Some \<lparr>dimension_name = ''window_start'',
                  validity_params = Some \<lparr>is_start = True, is_end = False\<rparr>,
                  is_partition = False\<rparr>)
   \<and> validity_end_dimension example_data_source =
       Inr (Some \<lparr>dimension_name = ''window_end'',
                  validity_params = Some \<lparr>is_start = False, is_end = True\<rparr>,
                  is_partition = False\<rparr>)
   \<and> length (filter is_validity_start (dimensions bookings_data_source)) \<le> 1
   \<and> length (filter is_validity_end (dimensions bookings_data_source)) \<le> 1
   \<and> validity_start_dimension bookings_data_source = Inr None
   \<and> validity_end_dimension bookings_data_source = Inr None"
proof -
  let ?ws = "\<lparr>dimension_name = ''window_start'',
              validity_params = Some \<lparr>is_start = True, is_end = False\<rparr>,
              is_partition = False\<rparr>"
  let ?we = "\<lparr>dimension_name = ''window_end'',
              validity_params = Some \<lparr>is_start = False, is_end = True\<rparr>,
              is_partition = False\<rparr>"
  have h1: "length (filter is_validity_start (dimensions example_data_source)) \<le> 1"
    and h2: "length (filter is_validity_end (dimensions example_data_source)) \<le> 1"
    and h3: "length (filter is_validity_start (dimensions bookings_data_source)) \<le> 1"
    and h4: "length (filter is_validity_end (dimensions bookings_data_source)) \<le> 1"
    by (simp_all add: example_data_source_def bookings_data_source_def
        is_validity_start_def is_validity_end_def)
  have s: "?ws \<in> set (dimensions example_data_source)" "is_validity_start ?ws"
    and e: "?we \<in> set (dimensions example_data_source)" "is_validity_end ?we"
    by (simp_all add: example_data_source_def is_validity_start_def is_validity_end_def)
  have n: "\<forall>d \<in> set (dimensions bookings_data_source). \<not> is_validity_start d"
    "\<forall>d \<in> set (dimensions bookings_data_source). \<not> is_validity_end d"
    by (simp_all add: bookings_data_source_def is_validity_start_def is_validity_end_def)
  note t1 = validity_dimensions_under_invariant[of example_data_source]
  note t2 = validity_dimensions_under_invariant[of bookings_data_source]
  from t1 h1 s have g1: "validity_start_dimension example_data_source = Inr (Some ?ws)"
    by blast
  from t1 h2 e have g2: "validity_end_dimension example_data_source = Inr (Some ?we)"
    by blast
  from t2 h3 n(1) have g3: "validity_start_dimension bookings_data_source = Inr None"
    by blast
  from t2 h4 n(2) have g4: "validity_end_dimension bookings_data_source = Inr None"
    by blast
  from h1 h2 g1 g2 h3 h4 g3 g4 show ?thesis by blast
qed

section \<open>Input measures of a metric\<close>

lemma measures_for_metric_registered:
  "get_metric self r = Inr m \<Longrightarrow>
   measures_for_metric self r resolver =
     Inr (map (input_measure_spec self resolver) (input_measures m))"
  by (simp add: measures_for_metric_def)

text \<open>
  The filtered metric of the small manifest is SIMPLE, has a filter and the name
  \<open>instant_bookings\<close>, and its one input measure has neither filter nor alias. The
  spec that \<^verbatim>\<open>measures_for_metric\<close> returns for it has no constraint and no alias: it
  does not carry the filter of the metric, nor the name of the metric as alias.
\<close>

theorem measures_for_metric_counterexample:
  "get_metric example_semantics (MetricReference ''instant_bookings'') = Inr instant_bookings
   \<and> metric_type instant_bookings = SIMPLE
   \<and> metric_name instant_bookings = ''instant_bookings''
   \<and> metric_filter instant_bookings = Some (WhereFilter ''booking__is_instant'')
   \<and> measures_for_metric example_semantics (MetricReference ''instant_bookings'') () =
       Inr [\<lparr>measure_spec =
               \<lparr>measure_element_name = ''bookings'', non_additive_dimension_spec = None\<rparr>,
             measure_constraint = None, measure_alias = None\<rparr>]
   \<and> \<not> (\<exists>spec. measures_for_metric example_semantics (MetricReference ''instant_bookings'') ()
                  = Inr [spec]
             \<and> measure_constraint spec =
                 Some (create_from_where_filter (WhereFilter ''booking__is_instant'') ())
             \<and> measure_alias spec = Some ''instant_bookings'')"
proof -
  have g: "get_metric example_semantics (MetricReference ''instant_bookings'')
      = Inr instant_bookings"
    by (simp add: get_metric_def example_defs)
  have r: "measures_for_metric example_semantics (MetricReference ''instant_bookings'') () =
       Inr [\<lparr>measure_spec =
               \<lparr>measure_element_name = ''bookings'', non_additive_dimension_spec = None\<rparr>,
             measure_constraint = None, measure_alias = None\<rparr>]"
    by (subst measures_for_metric_registered[OF g])
       (simp add: input_measure_spec_def measure_reference_def example_defs)
  show ?thesis
    by (simp add: g r) (simp add: instant_bookings_def)
qed

text \<open>
  Claim C6, amended. For a registered SIMPLE metric with its single input measure,
  \<^verbatim>\<open>measures_for_metric\<close> yields exactly one spec. Its measure spec names the input
  measure and carries the non-additive dimension spec registered for that measure; its
  constraint is the filter of the input measure (none when the input measure has no
  filter); its alias is the alias of the input measure. The filter and the name of the
  metric are not read.
\<close>

theorem measures_for_metric_simple:
  assumes "get_metric self r = Inr m"
    and "metric_type m = SIMPLE"
    and "input_measures m = [input_measure]"
  shows "measures_for_metric self r resolver =
     Inr [\<lparr>measure_spec =
             \<lparr>measure_element_name = input_measure_name input_measure,
              non_additive_dimension_spec =
                map_of (non_additive_dimension_specs_by_measure
                          (self_semantic_model_semantics self))
                       (MeasureReference (input_measure_name input_measure))\<rparr>,
           measure_constraint =
             (case input_measure_filter input_measure of
                None \<Rightarrow> None
              | Some flt \<Rightarrow> Some (create_from_where_filter flt resolver)),
           measure_alias = input_measure_alias input_measure\<rparr>]"
  using assms(1,3)
  by (simp add: measures_for_metric_registered input_measure_spec_def measure_reference_def
      split: option.splits)

text \<open>
  The filtered metric of the small manifest.
\<close>

theorem measures_for_metric_simple_witness:
  "get_metric example_semantics (MetricReference ''instant_bookings'') = Inr instant_bookings
   \<and> metric_type instant_bookings = SIMPLE
   \<and> input_measures instant_bookings = [bookings_measure]
   \<and> measures_for_metric example_semantics (MetricReference ''instant_bookings'') () =
       Inr [\<lparr>measure_spec =
               \<lparr>measure_element_name = ''bookings'', non_additive_dimension_spec = None\<rparr>,
             measure_constraint = None, measure_alias = None\<rparr>]"
proof -
  have g: "get_metric example_semantics (MetricReference ''instant_bookings'')
      = Inr instant_bookings"
    by (simp add: get_metric_def example_defs)
  have t: "metric_type instant_bookings = SIMPLE"
    and i: "input_measures instant_bookings = [bookings_measure]"
    by (simp_all add: instant_bookings_def)
  from measures_for_metric_simple[OF g t i, of "()"]
  have "measures_for_metric example_semantics (MetricReference ''instant_bookings'') () =
       Inr [\<lparr>measure_spec =
               \<lparr>measure_element_name = ''bookings'', non_additive_dimension_spec = None\<rparr>,
             measure_constraint = None, measure_alias = None\<rparr>]"
    by (simp add: bookings_measure_def example_semantics_def example_sms_def)
  with g t i show ?thesis by blast
qed


section \<open>Detecting cumulative and time-offset metrics\<close>

lemma contains_step:
  "map_of (self_metrics self) r = Some m \<Longrightarrow>
   contains_cumulative_or_time_offset_metric self (r # refs) =
     (if cumulative_or_time_offset m then Inr True
      else contains_cumulative_or_time_offset_metric self refs)"
  by (auto simp: get_metric_def cumulative_or_time_offset_def input_metrics_def)

lemma contains_all_registered:
  "set refs \<subseteq> set (metric_references self) \<Longrightarrow>
   contains_cumulative_or_time_offset_metric self refs =
     Inr (list_ex cumulative_or_time_offset
            (map (\<lambda>r. the (map_of (self_metrics self) r)) refs))"
proof (induction refs)
  case Nil
  then show ?case by simp
next
  case (Cons r refs)
  from Cons.prems obtain m where m: "map_of (self_metrics self) r = Some m"
    by (auto simp: registered_iff)
  from Cons have ih: "contains_cumulative_or_time_offset_metric self refs =
     Inr (list_ex cumulative_or_time_offset
            (map (\<lambda>r. the (map_of (self_metrics self) r)) refs))"
    by simp
  show ?case
    by (simp add: contains_step[OF m] ih m
        del: contains_cumulative_or_time_offset_metric.simps)
qed

lemma contains_True_iff:
  "contains_cumulative_or_time_offset_metric self refs = Inr True \<longleftrightarrow>
     (\<exists>pre r post m. refs = pre @ r # post \<and> set pre \<subseteq> set (metric_references self) \<and>
        get_metric self r = Inr m \<and> cumulative_or_time_offset m)"
proof (induction refs)
  case Nil
  then show ?case by simp
next
  case (Cons a refs)
  show ?case
  proof (cases "map_of (self_metrics self) a")
    case None
    then have un: "a \<notin> set (metric_references self)" by (simp add: registered_iff)
    have "\<not> (\<exists>pre r post m. a # refs = pre @ r # post \<and>
        set pre \<subseteq> set (metric_references self) \<and>
        get_metric self r = Inr m \<and> cumulative_or_time_offset m)"
    proof
      assume "\<exists>pre r post m. a # refs = pre @ r # post \<and>
        set pre \<subseteq> set (metric_references self) \<and>
        get_metric self r = Inr m \<and> cumulative_or_time_offset m"
      then obtain pre r post m where s: "a # refs = pre @ r # post"
        "set pre \<subseteq> set (metric_references self)" "get_metric self r = Inr m" by blast
      show False
      proof (cases pre)
        case Nil
        with s(1) have "a = r" by simp
        with s(3) None show False by (simp add: get_metric_def)
      next
        case (Cons p pre')
        with s(1) have "a = p" by simp
        with s(2) Cons un show False by simp
      qed
    qed
    then show ?thesis by (simp add: get_metric_def None)
  next
    case (Some m)
    then have reg: "a \<in> set (metric_references self)" by (simp add: registered_iff)
    show ?thesis
    proof (cases "cumulative_or_time_offset m")
      case True
      then have "contains_cumulative_or_time_offset_metric self (a # refs) = Inr True"
        by (simp add: contains_step[OF Some]
            del: contains_cumulative_or_time_offset_metric.simps)
      moreover have "a # refs = [] @ a # refs \<and> set [] \<subseteq> set (metric_references self) \<and>
        get_metric self a = Inr m \<and> cumulative_or_time_offset m"
        using True by (simp add: get_metric_def Some)
      ultimately show ?thesis by blast
    next
      case False
      then have step: "contains_cumulative_or_time_offset_metric self (a # refs) =
          contains_cumulative_or_time_offset_metric self refs"
        by (simp add: contains_step[OF Some]
            del: contains_cumulative_or_time_offset_metric.simps)
      have "(\<exists>pre r post m'. a # refs = pre @ r # post \<and>
                set pre \<subseteq> set (metric_references self) \<and>
                get_metric self r = Inr m' \<and> cumulative_or_time_offset m')
            \<longleftrightarrow> (\<exists>pre r post m'. refs = pre @ r # post \<and>
                set pre \<subseteq> set (metric_references self) \<and>
                get_metric self r = Inr m' \<and> cumulative_or_time_offset m')"
        (is "?L \<longleftrightarrow> ?R")
      proof
        assume ?L
        then obtain pre r post m' where s: "a # refs = pre @ r # post"
          "set pre \<subseteq> set (metric_references self)" "get_metric self r = Inr m'"
          "cumulative_or_time_offset m'" by blast
        show ?R
        proof (cases pre)
          case Nil
          with s(1) have "a = r" by simp
          with s(3,4) Some False show ?thesis by (simp add: get_metric_def)
        next
          case (Cons p pre')
          with s(1) have "refs = pre' @ r # post" by simp
          moreover from s(2) Cons have "set pre' \<subseteq> set (metric_references self)" by simp
          ultimately show ?thesis using s(3,4) by blast
        qed
      next
        assume ?R
        then obtain pre r post m' where s: "refs = pre @ r # post"
          "set pre \<subseteq> set (metric_references self)" "get_metric self r = Inr m'"
          "cumulative_or_time_offset m'" by blast
        then have "a # refs = (a # pre) @ r # post"
          "set (a # pre) \<subseteq> set (metric_references self)"
          using reg by simp_all
        with s(3,4) show ?L by blast
      qed
      with step Cons.IH show ?thesis by simp
    qed
  qed
qed

lemma contains_raises_at_first_unregistered:
  "\<not> set refs \<subseteq> set (metric_references self) \<Longrightarrow>
   contains_cumulative_or_time_offset_metric self refs \<noteq> Inr True \<Longrightarrow>
   \<exists>pre u post. refs = pre @ u # post \<and> set pre \<subseteq> set (metric_references self) \<and>
      u \<notin> set (metric_references self) \<and>
      contains_cumulative_or_time_offset_metric self refs = Inl (MetricNotFoundError u)"
proof (induction refs)
  case Nil
  then show ?case by simp
next
  case (Cons a refs)
  show ?case
  proof (cases "map_of (self_metrics self) a")
    case None
    then have un: "a \<notin> set (metric_references self)" by (simp add: registered_iff)
    have "contains_cumulative_or_time_offset_metric self (a # refs) = Inl (MetricNotFoundError a)"
      by (simp add: get_metric_def None)
    with un have "a # refs = [] @ a # refs \<and> set [] \<subseteq> set (metric_references self) \<and>
      a \<notin> set (metric_references self) \<and>
      contains_cumulative_or_time_offset_metric self (a # refs) = Inl (MetricNotFoundError a)"
      by simp
    then show ?thesis by blast
  next
    case (Some m)
    then have reg: "a \<in> set (metric_references self)" by (simp add: registered_iff)
    from Cons.prems(2) have nohit: "\<not> cumulative_or_time_offset m"
      by (auto simp: contains_step[OF Some]
          simp del: contains_cumulative_or_time_offset_metric.simps)
    then have step: "contains_cumulative_or_time_offset_metric self (a # refs) =
        contains_cumulative_or_time_offset_metric self refs"
      by (simp add: contains_step[OF Some]
          del: contains_cumulative_or_time_offset_metric.simps)
    from Cons.prems(1) reg have "\<not> set refs \<subseteq> set (metric_references self)" by simp
    moreover from Cons.prems(2) step
    have "contains_cumulative_or_time_offset_metric self refs \<noteq> Inr True" by simp
    ultimately obtain pre u post where s: "refs = pre @ u # post"
      "set pre \<subseteq> set (metric_references self)" "u \<notin> set (metric_references self)"
      "contains_cumulative_or_time_offset_metric self refs = Inl (MetricNotFoundError u)"
      using Cons.IH by blast
    from s reg step have "a # refs = (a # pre) @ u # post \<and>
      set (a # pre) \<subseteq> set (metric_references self) \<and>
      u \<notin> set (metric_references self) \<and>
      contains_cumulative_or_time_offset_metric self (a # refs) = Inl (MetricNotFoundError u)"
      by simp
    then show ?thesis by blast
  qed
qed

text \<open>
  Claim C1, amended. \<^verbatim>\<open>contains_cumulative_or_time_offset_metric\<close> returns true exactly
  when some reference of the sequence, all references before it being registered, is
  to a metric that is itself CUMULATIVE, or is itself DERIVED with an input of its own
  that has an offset window or an offset to grain. On a sequence of registered
  references this is: true if and only if some referenced metric is such a metric.
  Otherwise, when it does not return true and some reference is not registered, it
  raises \<^verbatim>\<open>MetricNotFoundError\<close> for the first reference that is not registered.
  Metrics that are reached only through the inputs of a derived metric are not looked at.
\<close>

theorem contains_cumulative_or_time_offset_metric_direct:
  "(contains_cumulative_or_time_offset_metric self refs = Inr True \<longleftrightarrow>
      (\<exists>pre r post m. refs = pre @ r # post \<and> set pre \<subseteq> set (metric_references self) \<and>
         get_metric self r = Inr m \<and>
         (metric_type m = CUMULATIVE \<or>
          (metric_type m = DERIVED \<and>
           (\<exists>i \<in> set (input_metrics m). offset_window i \<noteq> None \<or> offset_to_grain i \<noteq> None)))))
   \<and> (\<forall>ms. get_metrics self refs = Inr ms \<longrightarrow>
        contains_cumulative_or_time_offset_metric self refs =
          Inr (\<exists>m \<in> set ms.
                 metric_type m = CUMULATIVE \<or>
                 (metric_type m = DERIVED \<and>
                  (\<exists>i \<in> set (input_metrics m).
                      offset_window i \<noteq> None \<or> offset_to_grain i \<noteq> None))))
   \<and> (\<not> set refs \<subseteq> set (metric_references self) \<and>
       contains_cumulative_or_time_offset_metric self refs \<noteq> Inr True \<longrightarrow>
        (\<exists>pre u post. refs = pre @ u # post \<and> set pre \<subseteq> set (metric_references self) \<and>
            u \<notin> set (metric_references self) \<and>
            contains_cumulative_or_time_offset_metric self refs = Inl (MetricNotFoundError u)))"
proof (intro conjI allI impI)
  show "contains_cumulative_or_time_offset_metric self refs = Inr True \<longleftrightarrow>
      (\<exists>pre r post m. refs = pre @ r # post \<and> set pre \<subseteq> set (metric_references self) \<and>
         get_metric self r = Inr m \<and>
         (metric_type m = CUMULATIVE \<or>
          (metric_type m = DERIVED \<and>
           (\<exists>i \<in> set (input_metrics m). offset_window i \<noteq> None \<or> offset_to_grain i \<noteq> None))))"
    unfolding contains_True_iff cumulative_or_time_offset_def list_ex_iff has_offset_def
    by (rule refl)
next
  fix ms
  assume ms: "get_metrics self refs = Inr ms"
  have reg: "set refs \<subseteq> set (metric_references self)"
  proof (rule ccontr)
    assume "\<not> set refs \<subseteq> set (metric_references self)"
    from first_unregistered_split[OF this] obtain pre u post
      where "refs = pre @ u # post" "set pre \<subseteq> set (metric_references self)"
        "u \<notin> set (metric_references self)" by blast
    then have "get_metrics self refs = Inl (MetricNotFoundError u)"
      by (simp add: get_metrics_def get_metrics_loop_first_unregistered)
    with ms show False by simp
  qed
  from get_metrics_all_registered[OF reg] ms
  have "ms = map (\<lambda>r. the (map_of (self_metrics self) r)) refs" by simp
  with contains_all_registered[OF reg]
  show "contains_cumulative_or_time_offset_metric self refs =
          Inr (\<exists>m \<in> set ms.
                 metric_type m = CUMULATIVE \<or>
                 (metric_type m = DERIVED \<and>
                  (\<exists>i \<in> set (input_metrics m).
                      offset_window i \<noteq> None \<or> offset_to_grain i \<noteq> None)))"
    by (simp add: cumulative_or_time_offset_def list_ex_iff has_offset_def)
next
  assume "\<not> set refs \<subseteq> set (metric_references self) \<and>
       contains_cumulative_or_time_offset_metric self refs \<noteq> Inr True"
  then show "\<exists>pre u post. refs = pre @ u # post \<and> set pre \<subseteq> set (metric_references self) \<and>
            u \<notin> set (metric_references self) \<and>
            contains_cumulative_or_time_offset_metric self refs = Inl (MetricNotFoundError u)"
    using contains_raises_at_first_unregistered[of refs self] by blast
qed


text \<open>
  A derived metric of the small manifest has no offset on its inputs, and one of its
  inputs is a cumulative metric. The nested expansion contains a cumulative metric, and
  the function returns false.
\<close>

theorem contains_cumulative_or_time_offset_metric_counterexample:
  "get_metric example_semantics (MetricReference ''revenue_per_booking'') = Inr revenue_per_booking
   \<and> metric_type revenue_per_booking = DERIVED
   \<and> MetricReference ''trailing_2_months_revenue''
        \<in> set (map as_reference (input_metrics revenue_per_booking))
   \<and> get_metric example_semantics (MetricReference ''trailing_2_months_revenue'')
        = Inr trailing_2_months_revenue
   \<and> metric_type trailing_2_months_revenue = CUMULATIVE
   \<and> spec_contains_cumulative_or_time_offset_metric example_semantics
        [MetricReference ''revenue_per_booking'']
   \<and> contains_cumulative_or_time_offset_metric example_semantics
        [MetricReference ''revenue_per_booking''] = Inr False"
proof -
  have a: "get_metric example_semantics (MetricReference ''revenue_per_booking'')
      = Inr revenue_per_booking"
    and b: "get_metric example_semantics (MetricReference ''trailing_2_months_revenue'')
        = Inr trailing_2_months_revenue"
    by (simp_all add: get_metric_def example_defs)
  have c: "metric_type revenue_per_booking = DERIVED"
    "MetricReference ''trailing_2_months_revenue''
        \<in> set (map as_reference (input_metrics revenue_per_booking))"
    by (simp_all add: revenue_per_booking_def input_metrics_def as_reference_def)
  have d: "metric_type trailing_2_months_revenue = CUMULATIVE"
    by (simp add: trailing_2_months_revenue_def)
  have e: "spec_contains_cumulative_or_time_offset_metric example_semantics
        [MetricReference ''revenue_per_booking'']"
    by (simp add: spec_contains_cumulative_or_time_offset_metric_def
        cumulative_or_time_offset_def input_metrics_def as_reference_def has_offset_def
        example_defs)
  have f: "contains_cumulative_or_time_offset_metric example_semantics
        [MetricReference ''revenue_per_booking''] = Inr False"
    by (simp add: a) (simp add: revenue_per_booking_def has_offset_def)
  from a b c d e f show ?thesis by blast
qed

text \<open>
  On the small manifest: a derived metric with an offset window, the derived metric
  over the cumulative one, and a sequence with an unregistered reference before a
  cumulative metric.
\<close>

theorem contains_cumulative_or_time_offset_metric_direct_witness:
  "get_metrics example_semantics
      [MetricReference ''bookings'', MetricReference ''bookings_5_day_lag'']
     = Inr [bookings, bookings_5_day_lag]
   \<and> contains_cumulative_or_time_offset_metric example_semantics
        [MetricReference ''bookings'', MetricReference ''bookings_5_day_lag''] = Inr True
   \<and> get_metrics example_semantics [MetricReference ''revenue_per_booking'']
       = Inr [revenue_per_booking]
   \<and> contains_cumulative_or_time_offset_metric example_semantics
        [MetricReference ''revenue_per_booking''] = Inr False
   \<and> \<not> set [MetricReference ''bookings'', MetricReference ''listings'',
              MetricReference ''trailing_2_months_revenue'']
          \<subseteq> set (metric_references example_semantics)
   \<and> contains_cumulative_or_time_offset_metric example_semantics
        [MetricReference ''bookings'', MetricReference ''listings'',
         MetricReference ''trailing_2_months_revenue'']
       = Inl (MetricNotFoundError (MetricReference ''listings''))"
proof -
  let ?r1 = "[MetricReference ''bookings'', MetricReference ''bookings_5_day_lag'']"
  let ?r2 = "[MetricReference ''revenue_per_booking'']"
  let ?b = "MetricReference ''bookings''" and ?l = "MetricReference ''listings''"
  let ?r3 = "[?b, ?l, MetricReference ''trailing_2_months_revenue'']"
  have g1: "get_metrics example_semantics ?r1 = Inr [bookings, bookings_5_day_lag]"
    and g2: "get_metrics example_semantics ?r2 = Inr [revenue_per_booking]"
    by (simp_all add: get_metrics_def example_defs)
  from contains_cumulative_or_time_offset_metric_direct[of example_semantics ?r1] g1
  have "contains_cumulative_or_time_offset_metric example_semantics ?r1 =
          Inr (\<exists>m \<in> set [bookings, bookings_5_day_lag].
                 metric_type m = CUMULATIVE \<or>
                 (metric_type m = DERIVED \<and>
                  (\<exists>i \<in> set (input_metrics m).
                      offset_window i \<noteq> None \<or> offset_to_grain i \<noteq> None)))"
    by blast
  then have c1: "contains_cumulative_or_time_offset_metric example_semantics ?r1 = Inr True"
    by (simp add: input_metrics_def bookings_def bookings_5_day_lag_def)
  from contains_cumulative_or_time_offset_metric_direct[of example_semantics ?r2] g2
  have "contains_cumulative_or_time_offset_metric example_semantics ?r2 =
          Inr (\<exists>m \<in> set [revenue_per_booking].
                 metric_type m = CUMULATIVE \<or>
                 (metric_type m = DERIVED \<and>
                  (\<exists>i \<in> set (input_metrics m).
                      offset_window i \<noteq> None \<or> offset_to_grain i \<noteq> None)))"
    by blast
  then have c2: "contains_cumulative_or_time_offset_metric example_semantics ?r2 = Inr False"
    by (simp add: input_metrics_def revenue_per_booking_def)
  have in_b: "?b \<in> set (metric_references example_semantics)"
    and out_l: "?l \<notin> set (metric_references example_semantics)"
    and bad: "\<not> set ?r3 \<subseteq> set (metric_references example_semantics)"
    by (simp_all add: example_metric_references)
  have nt: "contains_cumulative_or_time_offset_metric example_semantics ?r3 \<noteq> Inr True"
    by (simp add: get_metric_def example_defs has_offset_def)
  from contains_cumulative_or_time_offset_metric_direct[of example_semantics ?r3] bad nt
  obtain pre u post where split: "?r3 = pre @ u # post"
    "set pre \<subseteq> set (metric_references example_semantics)"
    "u \<notin> set (metric_references example_semantics)"
    "contains_cumulative_or_time_offset_metric example_semantics ?r3
       = Inl (MetricNotFoundError u)"
    by blast
  have "u = ?l"
  proof (cases pre)
    case Nil
    with split(1,3) in_b show ?thesis by simp
  next
    case (Cons a pre')
    with split(1) have "a = ?b"
      "[?l, MetricReference ''trailing_2_months_revenue''] = pre' @ u # post" by simp_all
    then show ?thesis
      using split(2) Cons out_l by (cases pre') auto
  qed
  with split(4) have c3: "contains_cumulative_or_time_offset_metric example_semantics ?r3
       = Inl (MetricNotFoundError ?l)"
    by simp
  from g1 c1 g2 c2 bad c3 show ?thesis by blast
qed

section \<open>Input metrics of a derived metric\<close>

lemma input_metric_specs_loop_registered:
  "set (map as_reference inputs) \<subseteq> set (metric_references self) \<Longrightarrow>
   input_metric_specs_loop self resolver inputs acc =
     Inr (acc @ map (\<lambda>i. input_metric_spec resolver i
                            (the (map_of (self_metrics self) (as_reference i)))) inputs)"
proof (induction inputs arbitrary: acc)
  case Nil
  then show ?case by simp
next
  case (Cons i inputs)
  from Cons.prems obtain original
    where o: "map_of (self_metrics self) (as_reference i) = Some original"
    by (auto simp: registered_iff)
  from Cons.prems have "set (map as_reference inputs) \<subseteq> set (metric_references self)"
    by simp
  from Cons.IH[OF this] show ?case
    by (simp add: get_metric_def o)
qed

lemma input_metric_spec_constraint:
  "spec_constraint (input_metric_spec resolver i original) =
     (case (input_metric_filter i, metric_filter original) of
        (None, None) \<Rightarrow> None
      | (Some a, None) \<Rightarrow> Some (create_from_where_filter a resolver)
      | (None, Some b) \<Rightarrow> Some (create_from_where_filter b resolver)
      | (Some a, Some b) \<Rightarrow>
          Some (combine (create_from_where_filter a resolver)
                        (create_from_where_filter b resolver)))"
  by (simp add: input_metric_spec_def split: option.splits)

lemma input_metric_spec_fields:
  "spec_element_name (input_metric_spec resolver i original) = input_metric_name i"
  "spec_alias (input_metric_spec resolver i original) = input_metric_alias i"
  "spec_offset_window (input_metric_spec resolver i original) = offset_window i"
  "spec_offset_to_grain (input_metric_spec resolver i original) = offset_to_grain i"
  by (simp_all add: input_metric_spec_def Let_def)

text \<open>
  Claim C2, amended. For a registered metric whose input metrics are registered (a
  DERIVED metric of a valid manifest is one), \<^verbatim>\<open>metric_input_specs_for_metric\<close> returns
  one spec for each input metric, in order. The spec carries the name, the alias, the
  offset window and the offset to grain of the input. Its constraint is the
  AND-combination of the filter of the input and the filter of the metric the input
  refers to, in this order, a filter that is absent left out, and no constraint when
  both are absent. The filter of the derived metric itself is not part of it.
\<close>

theorem metric_input_specs_for_metric_constraints:
  assumes "get_metric self r = Inr m"
    and "set (map as_reference (input_metrics m)) \<subseteq> set (metric_references self)"
  shows "\<exists>specs. metric_input_specs_for_metric self r resolver = Inr specs
     \<and> length specs = length (input_metrics m)
     \<and> (\<forall>k < length (input_metrics m).
          \<exists>original. get_metric self (as_reference (input_metrics m ! k)) = Inr original
            \<and> spec_element_name (specs ! k) = input_metric_name (input_metrics m ! k)
            \<and> spec_alias (specs ! k) = input_metric_alias (input_metrics m ! k)
            \<and> spec_offset_window (specs ! k) = offset_window (input_metrics m ! k)
            \<and> spec_offset_to_grain (specs ! k) = offset_to_grain (input_metrics m ! k)
            \<and> spec_constraint (specs ! k) =
                (case (input_metric_filter (input_metrics m ! k), metric_filter original) of
                   (None, None) \<Rightarrow> None
                 | (Some a, None) \<Rightarrow> Some (create_from_where_filter a resolver)
                 | (None, Some b) \<Rightarrow> Some (create_from_where_filter b resolver)
                 | (Some a, Some b) \<Rightarrow>
                     Some (combine (create_from_where_filter a resolver)
                                   (create_from_where_filter b resolver))))"
proof -
  let ?orig = "\<lambda>i. the (map_of (self_metrics self) (as_reference i))"
  let ?specs = "map (\<lambda>i. input_metric_spec resolver i (?orig i)) (input_metrics m)"
  have res: "metric_input_specs_for_metric self r resolver = Inr ?specs"
    using assms by (simp add: metric_input_specs_for_metric_def
        input_metric_specs_loop_registered)
  have len: "length ?specs = length (input_metrics m)" by simp
  have each: "\<exists>original. get_metric self (as_reference (input_metrics m ! k)) = Inr original
            \<and> spec_element_name (?specs ! k) = input_metric_name (input_metrics m ! k)
            \<and> spec_alias (?specs ! k) = input_metric_alias (input_metrics m ! k)
            \<and> spec_offset_window (?specs ! k) = offset_window (input_metrics m ! k)
            \<and> spec_offset_to_grain (?specs ! k) = offset_to_grain (input_metrics m ! k)
            \<and> spec_constraint (?specs ! k) =
                (case (input_metric_filter (input_metrics m ! k), metric_filter original) of
                   (None, None) \<Rightarrow> None
                 | (Some a, None) \<Rightarrow> Some (create_from_where_filter a resolver)
                 | (None, Some b) \<Rightarrow> Some (create_from_where_filter b resolver)
                 | (Some a, Some b) \<Rightarrow>
                     Some (combine (create_from_where_filter a resolver)
                                   (create_from_where_filter b resolver)))"
    if k: "k < length (input_metrics m)" for k
  proof -
    let ?i = "input_metrics m ! k"
    from k assms(2) have "as_reference ?i \<in> set (metric_references self)"
      by (auto simp: subset_iff)
    then obtain original where o: "map_of (self_metrics self) (as_reference ?i) = Some original"
      by (auto simp: registered_iff)
    then have g: "get_metric self (as_reference ?i) = Inr original"
      by (rule get_metric_registered)
    have nth: "?specs ! k = input_metric_spec resolver ?i original"
      using k o by simp
    show ?thesis
      unfolding nth using g
      by (simp add: input_metric_spec_fields input_metric_spec_constraint)
  qed
  from res len each show ?thesis by blast
qed

text \<open>
  A derived metric of the small manifest has a filter of its own, a filter on its input
  and a filter on the metric the input refers to. The constraint of the returned spec
  combines the last two only, where the specification lists all three.
\<close>

theorem metric_input_specs_for_metric_counterexample:
  "get_metric example_semantics (MetricReference ''lux_instant_bookings'')
      = Inr lux_instant_bookings
   \<and> metric_type lux_instant_bookings = DERIVED
   \<and> metric_filter lux_instant_bookings = Some (WhereFilter ''listing__is_lux_latest'')
   \<and> metric_input_specs_for_metric example_semantics (MetricReference ''lux_instant_bookings'') ()
      = Inr [\<lparr>spec_element_name = ''instant_bookings'',
              spec_constraint =
                Some (AndCombined (FromWhereFilter (WhereFilter ''booking__is_large'') ())
                                  (FromWhereFilter (WhereFilter ''booking__is_instant'') ())),
              spec_alias = Some ''large_instant'',
              spec_offset_window = None, spec_offset_to_grain = None\<rparr>]
   \<and> constraint_filters
        (Some (AndCombined (FromWhereFilter (WhereFilter ''booking__is_large'') ())
                           (FromWhereFilter (WhereFilter ''booking__is_instant'') ())))
      = [WhereFilter ''booking__is_large'', WhereFilter ''booking__is_instant'']
   \<and> spec_constraint_filters lux_instant_bookings
        \<lparr>input_metric_name = ''instant_bookings'',
         input_metric_filter = Some (WhereFilter ''booking__is_large''),
         input_metric_alias = Some ''large_instant'',
         offset_window = None, offset_to_grain = None\<rparr>
        instant_bookings
      = [WhereFilter ''listing__is_lux_latest'', WhereFilter ''booking__is_large'',
         WhereFilter ''booking__is_instant'']
   \<and> [WhereFilter ''booking__is_large'', WhereFilter ''booking__is_instant'']
      \<noteq> [WhereFilter ''listing__is_lux_latest'', WhereFilter ''booking__is_large'',
         WhereFilter ''booking__is_instant'']"
proof -
  have g: "get_metric example_semantics (MetricReference ''lux_instant_bookings'')
      = Inr lux_instant_bookings"
    by (simp add: get_metric_def example_defs)
  have o: "get_metric example_semantics (MetricReference ''instant_bookings'')
      = Inr instant_bookings"
    by (simp add: get_metric_def example_defs)
  have r: "metric_input_specs_for_metric example_semantics
             (MetricReference ''lux_instant_bookings'') ()
      = Inr [\<lparr>spec_element_name = ''instant_bookings'',
              spec_constraint =
                Some (AndCombined (FromWhereFilter (WhereFilter ''booking__is_large'') ())
                                  (FromWhereFilter (WhereFilter ''booking__is_instant'') ())),
              spec_alias = Some ''large_instant'',
              spec_offset_window = None, spec_offset_to_grain = None\<rparr>]"
    unfolding metric_input_specs_for_metric_def g
    by (simp add: lux_instant_bookings_def input_metrics_def as_reference_def o
        input_metric_spec_def create_from_where_filter_def combine_def)
       (simp add: instant_bookings_def create_from_where_filter_def combine_def)
  show ?thesis
    unfolding r
    by (simp add: g constraint_filters_def spec_constraint_filters_def)
       (simp add: lux_instant_bookings_def instant_bookings_def)
qed

text \<open>
  The same derived metric.
\<close>

theorem metric_input_specs_for_metric_constraints_witness:
  "get_metric example_semantics (MetricReference ''lux_instant_bookings'')
      = Inr lux_instant_bookings
   \<and> set (map as_reference (input_metrics lux_instant_bookings))
        \<subseteq> set (metric_references example_semantics)
   \<and> (\<exists>specs. metric_input_specs_for_metric example_semantics
                  (MetricReference ''lux_instant_bookings'') () = Inr specs
        \<and> length specs = 1
        \<and> spec_element_name (specs ! 0) = ''instant_bookings''
        \<and> spec_alias (specs ! 0) = Some ''large_instant''
        \<and> spec_offset_window (specs ! 0) = None
        \<and> spec_constraint (specs ! 0) =
            Some (combine (create_from_where_filter (WhereFilter ''booking__is_large'') ())
                          (create_from_where_filter (WhereFilter ''booking__is_instant'') ())))"
proof -
  let ?r = "MetricReference ''lux_instant_bookings''"
  let ?i = "\<lparr>input_metric_name = ''instant_bookings'',
         input_metric_filter = Some (WhereFilter ''booking__is_large''),
         input_metric_alias = Some ''large_instant'',
         offset_window = None, offset_to_grain = None\<rparr>"
  have g: "get_metric example_semantics ?r = Inr lux_instant_bookings"
    by (simp add: get_metric_def example_defs)
  have ins: "input_metrics lux_instant_bookings = [?i]"
    by (simp add: input_metrics_def lux_instant_bookings_def)
  have reg: "set (map as_reference (input_metrics lux_instant_bookings))
        \<subseteq> set (metric_references example_semantics)"
    by (simp add: ins as_reference_def example_metric_references)
  have o: "get_metric example_semantics (as_reference ?i) = Inr instant_bookings"
    by (simp add: get_metric_def as_reference_def example_defs)
  from metric_input_specs_for_metric_constraints[OF g reg, of "()"]
  obtain specs where s: "metric_input_specs_for_metric example_semantics ?r () = Inr specs"
    "length specs = length (input_metrics lux_instant_bookings)"
    and all: "\<forall>k < length (input_metrics lux_instant_bookings).
          \<exists>original. get_metric example_semantics
                (as_reference (input_metrics lux_instant_bookings ! k)) = Inr original
            \<and> spec_element_name (specs ! k) = input_metric_name (input_metrics lux_instant_bookings ! k)
            \<and> spec_alias (specs ! k) = input_metric_alias (input_metrics lux_instant_bookings ! k)
            \<and> spec_offset_window (specs ! k) = offset_window (input_metrics lux_instant_bookings ! k)
            \<and> spec_offset_to_grain (specs ! k) = offset_to_grain (input_metrics lux_instant_bookings ! k)
            \<and> spec_constraint (specs ! k) =
                (case (input_metric_filter (input_metrics lux_instant_bookings ! k),
                       metric_filter original) of
                   (None, None) \<Rightarrow> None
                 | (Some a, None) \<Rightarrow> Some (create_from_where_filter a ())
                 | (None, Some b) \<Rightarrow> Some (create_from_where_filter b ())
                 | (Some a, Some b) \<Rightarrow>
                     Some (combine (create_from_where_filter a ())
                                   (create_from_where_filter b ())))"
    by blast
  from all have "\<exists>original. get_metric example_semantics (as_reference ?i) = Inr original
            \<and> spec_element_name (specs ! 0) = input_metric_name ?i
            \<and> spec_alias (specs ! 0) = input_metric_alias ?i
            \<and> spec_offset_window (specs ! 0) = offset_window ?i
            \<and> spec_offset_to_grain (specs ! 0) = offset_to_grain ?i
            \<and> spec_constraint (specs ! 0) =
                (case (input_metric_filter ?i, metric_filter original) of
                   (None, None) \<Rightarrow> None
                 | (Some a, None) \<Rightarrow> Some (create_from_where_filter a ())
                 | (None, Some b) \<Rightarrow> Some (create_from_where_filter b ())
                 | (Some a, Some b) \<Rightarrow>
                     Some (combine (create_from_where_filter a ())
                                   (create_from_where_filter b ())))"
    unfolding ins by (elim allE[of _ 0]) simp
  then have f: "spec_element_name (specs ! 0) = ''instant_bookings''"
    "spec_alias (specs ! 0) = Some ''large_instant''"
    "spec_offset_window (specs ! 0) = None"
    "spec_constraint (specs ! 0) =
            Some (combine (create_from_where_filter (WhereFilter ''booking__is_large'') ())
                          (create_from_where_filter (WhereFilter ''booking__is_instant'') ()))"
    unfolding o by (auto simp: instant_bookings_def)
  from s(2) have l: "length specs = 1" by (simp add: ins)
  from g reg s(1) l f show ?thesis by blast
qed

section \<open>Linkable specs common to a set of metrics\<close>















end
